theory Spec2Isabelle
  imports Complex_Main "HOL-Library.Multiset"
begin

section \<open>Audio alignment and track assembly (run\_align\_concat\_audio.py)\<close>

text \<open>
  A shallow embedding of \<^verbatim>\<open>src/code/audio_align/run_align_concat_audio.py\<close>.

  Conventions of the model:
  \<^item> Python floats are idealised as exact reals: no rounding of products and quotients,
    no NaN and no infinity.
  \<^item> Every exception is a value \<open>Inl e\<close> of the result type \<open>py_error + 'a\<close>.
  \<^item> A JSON record is a Python dict: a map from key strings to values.
  \<^item> The audio sample type is any type with a zero (silence); samples are only copied.
  \<^item> The builtin \<^verbatim>\<open>float\<close> on strings, the directory of clip files with its decoder
    (\<^verbatim>\<open>librosa.load\<close>) and \<^verbatim>\<open>librosa.effects.time_stretch\<close> are external: they are
    parameters of the model.
\<close>

subsection \<open>Python values and errors\<close>

datatype py_error = KeyError | ValueError | TypeError | ZeroDivisionError | DecodeError

datatype pyval =
    PNone
  | PBool bool
  | PInt int
  | PFloat real
  | PStr string
  | PList "pyval list"
  | PDict "(string \<times> pyval) list"

type_synonym pydict = "string \<rightharpoonup> pyval"

text \<open>
  \<^verbatim>\<open>float(v)\<close>: numbers and booleans convert, a string is parsed (by the parameter
  \<open>pf\<close>, \<open>None\<close> when the text is no number: ValueError), anything else is a TypeError.
\<close>

fun py_float :: "(string \<Rightarrow> real option) \<Rightarrow> pyval \<Rightarrow> py_error + real" where
  "py_float pf PNone = Inl TypeError"
| "py_float pf (PBool b) = Inr (if b then 1 else 0)"
| "py_float pf (PInt i) = Inr (of_int i)"
| "py_float pf (PFloat x) = Inr x"
| "py_float pf (PStr s) = (case pf s of None \<Rightarrow> Inl ValueError | Some x \<Rightarrow> Inr x)"
| "py_float pf (PList vs) = Inl TypeError"
| "py_float pf (PDict kvs) = Inl TypeError"

text \<open>\<^verbatim>\<open>float(a), float(b)\<close>: the tuple is built left to right.\<close>

definition float_pair :: "(string \<Rightarrow> real option) \<Rightarrow> pyval \<Rightarrow> pyval \<Rightarrow> py_error + real \<times> real" where
  "float_pair pf a b =
     (case py_float pf a of
        Inl e \<Rightarrow> Inl e
      | Inr x \<Rightarrow> (case py_float pf b of Inl e \<Rightarrow> Inl e | Inr y \<Rightarrow> Inr (x, y)))"

subsection \<open>Slot times (lines 82--88)\<close>

definition get_slot_times :: "(string \<Rightarrow> real option) \<Rightarrow> pydict \<Rightarrow> py_error + real \<times> real" where
  "get_slot_times pf seg =
     (case (seg ''start_sec'', seg ''end_sec'') of
        (Some a, Some b) \<Rightarrow> float_pair pf a b
      | _ \<Rightarrow>
        (case (seg ''start'', seg ''end'') of
           (Some a, Some b) \<Rightarrow> float_pair pf a b
         | _ \<Rightarrow> Inl KeyError))"


subsection \<open>Python slices and numpy slice assignment\<close>

text \<open>
  A slice bound \<open>i\<close> on a sequence of length \<open>n\<close>: a negative bound counts from the end,
  and every bound is clamped into \<open>0..n\<close>.
\<close>

definition slice_index :: "nat \<Rightarrow> int \<Rightarrow> nat" where
  "slice_index n i = (if i < 0 then nat (max 0 (i + int n)) else min (nat i) n)"

text \<open>\<^verbatim>\<open>xs[:k]\<close>\<close>

definition py_take :: "int \<Rightarrow> 'a list \<Rightarrow> 'a list" where
  "py_take k xs = take (slice_index (length xs) k) xs"

text \<open>
  \<^verbatim>\<open>track[a:b] = v\<close> on a one-dimensional numpy array: the destination is the slice
  \<open>a:b\<close> (empty when its upper bound is not above its lower bound); a value of the same
  length is copied, a value of length one is broadcast over the destination, any other
  length is a ValueError. The length of the array never changes.
\<close>

definition np_set_slice :: "'a list \<Rightarrow> int \<Rightarrow> int \<Rightarrow> 'a list \<Rightarrow> py_error + 'a list" where
  "np_set_slice track a b v =
     (let lo = slice_index (length track) a;
          hi = slice_index (length track) b;
          n = hi - lo
      in if length v = n then Inr (take lo track @ v @ drop (lo + n) track)
         else if length v = 1 then Inr (take lo track @ replicate n (hd v) @ drop (lo + n) track)
         else Inl ValueError)"

text \<open>\<^verbatim>\<open>np.zeros(n)\<close>: a negative size is a ValueError.\<close>

definition np_zeros :: "int \<Rightarrow> py_error + ('a::zero) list" where
  "np_zeros n = (if n < 0 then Inl ValueError else Inr (replicate (nat n) 0))"

text \<open>\<^verbatim>\<open>np.pad(xs, (0, pad), mode="constant")\<close>, called with \<open>pad > 0\<close> only.\<close>

definition np_pad_tail :: "('a::zero) list \<Rightarrow> int \<Rightarrow> 'a list" where
  "np_pad_tail xs pad = xs @ replicate (nat pad) 0"

text \<open>\<^verbatim>\<open>np.clip(x, lo, hi)\<close> is \<open>minimum(maximum(x, lo), hi)\<close>.\<close>

definition np_clip :: "real \<Rightarrow> real \<Rightarrow> real \<Rightarrow> real" where
  "np_clip x lo hi = min (max x lo) hi"

text \<open>\<^verbatim>\<open>int(round(x))\<close>: Python 3 rounds a half to the even neighbour.\<close>

definition py_round :: "real \<Rightarrow> int" where
  "py_round x =
     (let f = \<lfloor>x\<rfloor>; d = x - of_int f
      in if d < 1 / 2 then f else if 1 / 2 < d then f + 1 else if even f then f else f + 1)"

subsection \<open>Loading: truncation, helper fields, sorting (lines 125--137)\<close>



text \<open>Lines 133--135: the three helper fields stored into the record.\<close>

definition add_time_fields :: "pydict \<Rightarrow> real \<Rightarrow> real \<Rightarrow> pydict" where
  "add_time_fields seg start_sec end_sec =
     seg(''_start_sec'' \<mapsto> PFloat start_sec,
         ''_end_sec'' \<mapsto> PFloat end_sec,
         ''_duration_sec'' \<mapsto> PFloat (max 0 (end_sec - start_sec)))"


text \<open>
  \<^verbatim>\<open>seg[k]\<close> for a field this script stored as a float: KeyError when the key is absent.
  (A value that is no float cannot stand there after the loop above; the model reports it
  as TypeError.)
\<close>

definition get_float_field :: "pydict \<Rightarrow> string \<Rightarrow> py_error + real" where
  "get_float_field seg k =
     (case seg k of None \<Rightarrow> Inl KeyError | Some (PFloat x) \<Rightarrow> Inr x | Some _ \<Rightarrow> Inl TypeError)"







subsection \<open>Clip file names (line 154)\<close>

function dec_digits :: "nat \<Rightarrow> string" where
  "dec_digits n =
     (if n < 10 then [''0123456789'' ! n]
      else dec_digits (n div 10) @ [''0123456789'' ! (n mod 10)])"
  by pat_completeness auto
termination
  by (relation "measure id") auto

definition zfill :: "nat \<Rightarrow> string \<Rightarrow> string" where
  "zfill w s = replicate (w - length s) (CHR ''0'') @ s"

text \<open>
  The format \<^verbatim>\<open>04d\<close> of an integer: at least four characters, zeros after the sign.
\<close>

definition format_04d_int :: "int \<Rightarrow> string" where
  "format_04d_int n =
     (if n < 0 then CHR ''-'' # zfill 3 (dec_digits (nat (- n))) else zfill 4 (dec_digits (nat n)))"

text \<open>
  \<^verbatim>\<open>f"{idx:04d}"\<close>: integers and booleans format; a float or a string is a ValueError
  (unknown format code), anything else a TypeError.
\<close>

fun format_04d :: "pyval \<Rightarrow> py_error + string" where
  "format_04d (PInt n) = Inr (format_04d_int n)"
| "format_04d (PBool b) = Inr (format_04d_int (if b then 1 else 0))"
| "format_04d (PFloat x) = Inl ValueError"
| "format_04d (PStr s) = Inl ValueError"
| "format_04d PNone = Inl TypeError"
| "format_04d (PList vs) = Inl TypeError"
| "format_04d (PDict kvs) = Inl TypeError"

definition seg_file_name :: "pyval \<Rightarrow> py_error + string" where
  "seg_file_name idx =
     (case format_04d idx of Inl e \<Rightarrow> Inl e | Inr s \<Rightarrow> Inr (''seg_'' @ s @ ''.mp3''))"

text \<open>Line 143: \<^verbatim>\<open>seg.get("index", i)\<close>.\<close>

definition seg_index :: "nat \<Rightarrow> pydict \<Rightarrow> pyval" where
  "seg_index i seg = (case seg ''index'' of None \<Rightarrow> PInt (int i) | Some v \<Rightarrow> v)"


subsection \<open>The run's parameters and the external collaborators\<close>

text \<open>
  What \<^verbatim>\<open>segments_dir / name\<close> holds, as line 155 (\<^verbatim>\<open>exists\<close>) and line 165
  (\<^verbatim>\<open>librosa.load\<close> at the output sample rate) see it: no file, a file the decoder
  rejects (it raises), or the decoded mono samples.
\<close>

datatype 'a clip_file = Missing | Unreadable | Audio "'a list"

record 'a env =
  sr :: int
  total_samples :: int
  max_rel_stretch :: real
  max_abs_stretch :: real
  segments_dir :: "string \<Rightarrow> 'a clip_file"
  time_stretch :: "'a list \<Rightarrow> real \<Rightarrow> 'a list"

text \<open>The lines the loop prints: the warning of line 156, lines 159--162, line 195.\<close>

datatype event =
    Warn_missing pyval string
  | Seg_info nat pyval
  | Time_stretch real

subsection \<open>Stretch decision and alignment (lines 172--203)\<close>

definition diff_sec :: "real \<Rightarrow> real \<Rightarrow> real" where
  "diff_sec slot_duration cur_dur = slot_duration - cur_dur"

definition rel_diff :: "real \<Rightarrow> real \<Rightarrow> real" where
  "rel_diff slot_duration cur_dur = \<bar>diff_sec slot_duration cur_dur\<bar> / max slot_duration (1 / 10 ^ 6)"

definition need_stretch :: "'a env \<Rightarrow> real \<Rightarrow> real \<Rightarrow> bool" where
  "need_stretch env slot_duration cur_dur \<longleftrightarrow>
     rel_diff slot_duration cur_dur > max_rel_stretch env
     \<and> \<bar>diff_sec slot_duration cur_dur\<bar> > max_abs_stretch env"

text \<open>Lines 184--188 and 199--203: crop or pad a buffer to \<open>slot_len\<close>.\<close>

definition crop_pad :: "int \<Rightarrow> ('a::zero) list \<Rightarrow> 'a list" where
  "crop_pad slot_len buf =
     (if int (length buf) \<ge> slot_len then py_take slot_len buf
      else np_pad_tail buf (slot_len - int (length buf)))"

text \<open>
  Lines 182--203. The quotient of line 192 raises ZeroDivisionError on a zero slot
  duration.
\<close>

definition align_clip ::
  "('a::zero) env \<Rightarrow> real \<Rightarrow> int \<Rightarrow> 'a list \<Rightarrow> real \<Rightarrow> py_error + event list \<times> 'a list" where
  "align_clip env slot_duration slot_len audio cur_dur =
     (if \<not> need_stretch env slot_duration cur_dur then Inr ([], crop_pad slot_len audio)
      else if slot_duration = 0 then Inl ZeroDivisionError
      else
        (let rate = np_clip (cur_dur / slot_duration) (7 / 10) (13 / 10);
             stretched = time_stretch env audio rate
         in Inr ([Time_stretch rate], crop_pad slot_len stretched)))"

subsection \<open>One slot (lines 143--208)\<close>

text \<open>
  Lines 143--203: what one slot contributes. \<open>None\<close> is a \<^verbatim>\<open>continue\<close>; otherwise the
  start sample, the slot length and the aligned buffer reach line 205. The quotient of
  line 168 raises ZeroDivisionError on a zero sample rate.
\<close>

definition slot_aligned ::
  "('a::zero) env \<Rightarrow> nat \<Rightarrow> pydict \<Rightarrow> py_error + event list \<times> (int \<times> int \<times> 'a list) option" where
  "slot_aligned env i seg =
     (let idx = seg_index i seg in
      case get_float_field seg ''_start_sec'' of Inl e \<Rightarrow> Inl e | Inr start_sec \<Rightarrow>
      case get_float_field seg ''_end_sec'' of Inl e \<Rightarrow> Inl e | Inr end_sec \<Rightarrow>
      case get_float_field seg ''_duration_sec'' of Inl e \<Rightarrow> Inl e | Inr slot_duration \<Rightarrow>
      let start_sample = py_round (start_sec * of_int (sr env));
          end_sample = py_round (end_sec * of_int (sr env))
      in if end_sample \<le> start_sample then Inr ([], None)
         else
           let slot_len = end_sample - start_sample in
           case seg_file_name idx of Inl e \<Rightarrow> Inl e | Inr seg_path \<Rightarrow>
           case segments_dir env seg_path of
             Missing \<Rightarrow> Inr ([Warn_missing idx seg_path], None)
           | Unreadable \<Rightarrow> Inl DecodeError
           | Audio audio \<Rightarrow>
               if sr env = 0 then Inl ZeroDivisionError
               else
                 let cur_len = length audio;
                     cur_dur = real cur_len / of_int (sr env)
                 in if cur_len = 0 then Inr ([Seg_info i idx], None)
                    else
                      case align_clip env slot_duration slot_len audio cur_dur of
                        Inl e \<Rightarrow> Inl e
                      | Inr (evs, aligned) \<Rightarrow>
                          Inr (Seg_info i idx # evs, Some (start_sample, slot_len, aligned)))"

text \<open>Lines 205--208: the write into the track.\<close>

definition write_slot :: "'a list \<Rightarrow> int \<Rightarrow> int \<times> int \<times> 'a list \<Rightarrow> py_error + 'a list" where
  "write_slot track total_len w =
     (case w of (start_sample, slot_len, aligned) \<Rightarrow>
        let end_pos = min (start_sample + slot_len) total_len;
            aligned' = py_take (end_pos - start_sample) aligned
        in np_set_slice track start_sample end_pos aligned')"

text \<open>The loop body: the state is the track and the lines printed so far.\<close>

definition process_slot ::
  "('a::zero) env \<Rightarrow> nat \<times> pydict \<Rightarrow> 'a list \<times> event list \<Rightarrow> py_error + 'a list \<times> event list" where
  "process_slot env x st =
     (case x of (i, seg) \<Rightarrow> case st of (track, printed) \<Rightarrow>
        (case slot_aligned env i seg of
           Inl e \<Rightarrow> Inl e
         | Inr (evs, None) \<Rightarrow> Inr (track, printed @ evs)
         | Inr (evs, Some w) \<Rightarrow>
             (case write_slot track (total_samples env) w of
                Inl e \<Rightarrow> Inl e
              | Inr track' \<Rightarrow> Inr (track', printed @ evs))))"

subsection \<open>Assembly (lines 139--215)\<close>

fun assemble_loop ::
  "('a::zero) env \<Rightarrow> (nat \<times> pydict) list \<Rightarrow> 'a list \<times> event list \<Rightarrow> py_error + 'a list \<times> event list" where
  "assemble_loop env [] st = Inr st"
| "assemble_loop env (x # xs) st =
     (case process_slot env x st of Inl e \<Rightarrow> Inl e | Inr st' \<Rightarrow> assemble_loop env xs st')"

text \<open>Lines 210--215.\<close>

definition finalize :: "int \<Rightarrow> ('a::zero) list \<Rightarrow> 'a list" where
  "finalize total_len track =
     (if int (length track) > total_len then py_take total_len track
      else if int (length track) < total_len then np_pad_tail track (total_len - int (length track))
      else track)"

text \<open>
  Lines 139--215: the track is allocated, the slots are visited as
  \<^verbatim>\<open>enumerate(processed, start=1)\<close>, the track is finalized.
\<close>

definition assemble :: "('a::zero) env \<Rightarrow> pydict list \<Rightarrow> py_error + 'a list \<times> event list" where
  "assemble env processed =
     (case np_zeros (total_samples env) of
        Inl e \<Rightarrow> Inl e
      | Inr track \<Rightarrow>
          (case assemble_loop env (enumerate 1 processed) (track, []) of
             Inl e \<Rightarrow> Inl e
           | Inr (track', printed) \<Rightarrow> Inr (finalize (total_samples env) track', printed)))"


text \<open>
  The track positions the write of lines 205--208 assigns, for a slot that reaches it:
  the destination slice of \<open>np_set_slice\<close>.
\<close>

definition writes_at :: "('a::zero) env \<Rightarrow> nat \<times> pydict \<Rightarrow> nat \<Rightarrow> bool" where
  "writes_at env x p =
     (case x of (i, seg) \<Rightarrow>
        (case slot_aligned env i seg of
           Inr (evs, Some (start_sample, slot_len, aligned)) \<Rightarrow>
             slice_index (nat (total_samples env)) start_sample \<le> p
             \<and> p < slice_index (nat (total_samples env))
                     (min (start_sample + slot_len) (total_samples env))
         | _ \<Rightarrow> False))"

subsection \<open>Example inputs\<close>

text \<open>
  A stand-in for the stretch primitive (nearest-sample speed change), a directory of
  clips and a run at four samples per second, used to instantiate the theorems below.
\<close>

definition example_stretch :: "'a list \<Rightarrow> real \<Rightarrow> 'a list" where
  "example_stretch xs rate =
     map (\<lambda>k. xs ! nat \<lfloor>real k * rate\<rfloor>) [0..<nat \<lfloor>real (length xs) / rate\<rfloor>]"

definition example_dir :: "string \<Rightarrow> int clip_file" where
  "example_dir name =
     (if name = ''seg_0001.mp3'' then Audio [11, 12, 13]
      else if name = ''seg_0002.mp3'' then Audio [21, 22, 23, 24, 25, 26, 27, 21, 22, 23, 24, 25, 26, 27]
      else if name = ''seg_0003.mp3'' then
        Audio [41, 42, 43, 44, 45, 41, 42, 43, 44, 45, 41, 42, 43, 44, 45, 41, 42, 43, 44, 45]
      else if name = ''seg_0004.mp3'' then Audio []
      else if name = ''seg_0005.mp3'' then Unreadable
      else if name = ''seg_0007.mp3'' then Audio [71, 72, 73]
      else Missing)"

definition example_env :: "int env" where
  "example_env =
     \<lparr> sr = 4, total_samples = 40, max_rel_stretch = 2 / 10, max_abs_stretch = 4 / 10,
       segments_dir = example_dir, time_stretch = example_stretch \<rparr>"

definition example_slot :: "real \<Rightarrow> real \<Rightarrow> pydict" where
  "example_slot s e = add_time_fields Map.empty s e"


text \<open>Slots that name their clip by an \<open>index\<close> field, and two slot lists that overlap.\<close>

definition example_slot_idx :: "int \<Rightarrow> real \<Rightarrow> real \<Rightarrow> pydict" where
  "example_slot_idx idx s e = (example_slot s e)(''index'' \<mapsto> PInt idx)"

definition example_overlap :: "pydict list" where
  "example_overlap = [example_slot_idx 1 0 1, example_slot_idx 2 1 5, example_slot_idx 3 4 5]"

definition example_triple :: "pydict list" where
  "example_triple = [example_slot_idx 1 0 1, example_slot_idx 7 0 1, example_slot_idx 1 0 1]"


section \<open>Properties\<close>

subsection \<open>Slot times\<close>

lemma py_float_fails_iff:
  "(\<exists>e. py_float pf v = Inl e) \<longleftrightarrow>
     v = PNone \<or> (\<exists>s. v = PStr s \<and> pf s = None) \<or> (\<exists>vs. v = PList vs) \<or> (\<exists>kvs. v = PDict kvs)"
  by (cases v) (auto split: option.splits)








subsection \<open>Alignment of one slot\<close>

lemma slot_aligned_SomeD:
  assumes "slot_aligned env i seg = Inr (evs, Some (start_sample, slot_len, aligned))"
  shows "\<exists>start_sec end_sec slot_duration seg_path audio aevs.
           get_float_field seg ''_start_sec'' = Inr start_sec
         \<and> get_float_field seg ''_end_sec'' = Inr end_sec
         \<and> get_float_field seg ''_duration_sec'' = Inr slot_duration
         \<and> start_sample = py_round (start_sec * of_int (sr env))
         \<and> slot_len = py_round (end_sec * of_int (sr env)) - start_sample
         \<and> 0 < slot_len
         \<and> seg_file_name (seg_index i seg) = Inr seg_path
         \<and> segments_dir env seg_path = Audio audio
         \<and> sr env \<noteq> 0 \<and> audio \<noteq> []
         \<and> align_clip env slot_duration slot_len audio (real (length audio) / of_int (sr env)) = Inr (aevs, aligned)
         \<and> evs = Seg_info i (seg_index i seg) # aevs"
  using assms
  by (auto simp: slot_aligned_def Let_def split: sum.splits if_splits clip_file.splits)

lemma align_clip_no_stretch:
  "\<not> need_stretch env slot_duration cur_dur \<Longrightarrow>
     align_clip env slot_duration slot_len audio cur_dur = Inr ([], crop_pad slot_len audio)"
  by (simp add: align_clip_def)

lemma align_clip_stretch:
  "need_stretch env slot_duration cur_dur \<Longrightarrow> align_clip env slot_duration slot_len audio cur_dur = Inr (aevs, aligned) \<Longrightarrow>
     aevs = [Time_stretch (np_clip (cur_dur / slot_duration) (7 / 10) (13 / 10))]
     \<and> aligned = crop_pad slot_len (time_stretch env audio (np_clip (cur_dur / slot_duration) (7 / 10) (13 / 10)))"
  by (auto simp: align_clip_def Let_def split: if_splits)

lemma need_stretch_iff:
  "need_stretch env slot_duration cur_dur \<longleftrightarrow>
     max_rel_stretch env < \<bar>slot_duration - cur_dur\<bar> / max slot_duration (1 / 10 ^ 6)
     \<and> max_abs_stretch env < \<bar>slot_duration - cur_dur\<bar>"
  by (simp add: need_stretch_def rel_diff_def diff_sec_def)

text \<open>
  Claim C3. For a slot that reaches the alignment (it is not degenerate and its clip was
  decoded and is not empty), with \<open>cur_dur = clip_len / sr\<close>, \<open>diff = slot_duration - cur_dur\<close>
  and \<open>rel = |diff| / max(slot_duration, 1e-6)\<close>: the stretch primitive is applied (a
  stretch line is printed and the aligned buffer is the cropped or padded stretch output)
  if and only if both \<open>rel > max_rel_stretch\<close> and \<open>|diff| > max_abs_stretch\<close>; when either
  fails, nothing is stretched and the aligned buffer is the cropped or padded clip.
\<close>

theorem stretch_iff_both_thresholds:
  assumes "slot_aligned env i seg = Inr (evs, Some (start_sample, slot_len, aligned))"
    and "get_float_field seg ''_duration_sec'' = Inr slot_duration"
    and "seg_file_name (seg_index i seg) = Inr seg_path"
    and "segments_dir env seg_path = Audio audio"
    and "cur_dur = real (length audio) / of_int (sr env)"
    and "diff = slot_duration - cur_dur"
    and "rel = \<bar>diff\<bar> / max slot_duration (1 / 10 ^ 6)"
  shows "((\<exists>rate. Time_stretch rate \<in> set evs \<and> aligned = crop_pad slot_len (time_stretch env audio rate))
            \<longleftrightarrow> rel > max_rel_stretch env \<and> \<bar>diff\<bar> > max_abs_stretch env)
       \<and> (\<not> (rel > max_rel_stretch env \<and> \<bar>diff\<bar> > max_abs_stretch env)
            \<longrightarrow> (\<forall>rate. Time_stretch rate \<notin> set evs) \<and> aligned = crop_pad slot_len audio)"
proof -
  from slot_aligned_SomeD[OF assms(1)] assms(2,3,4,5)
  obtain aevs where al: "align_clip env slot_duration slot_len audio cur_dur = Inr (aevs, aligned)"
    and evs: "evs = Seg_info i (seg_index i seg) # aevs"
    by auto
  have ns: "need_stretch env slot_duration cur_dur \<longleftrightarrow> rel > max_rel_stretch env \<and> \<bar>diff\<bar> > max_abs_stretch env"
    by (simp add: need_stretch_iff assms(6,7))
  show ?thesis
  proof (cases "need_stretch env slot_duration cur_dur")
    case True
    from align_clip_stretch[OF True al] evs True ns show ?thesis by auto
  next
    case False
    from align_clip_no_stretch[OF False, of slot_len audio] al evs False ns show ?thesis by auto
  qed
qed


theorem stretch_iff_both_thresholds_witness:
  "(\<forall>rate. Time_stretch rate \<notin> set [Seg_info 1 (PInt 1)])
   \<and> [11, 12, 13, 0] = crop_pad 4 [11, 12, 13 :: int]
   \<and> (\<forall>rate. Time_stretch rate \<notin> set [Seg_info 2 (PInt 2)])
   \<and> (\<exists>rate. Time_stretch rate \<in> set [Seg_info 3 (PInt 3), Time_stretch (13 / 10)])"
proof -
  have a1: "slot_aligned example_env 1 (example_slot 0 1) = Inr ([Seg_info 1 (PInt 1)], Some (0, 4, [11, 12, 13, 0]))"
    by code_simp
  have d1: "get_float_field (example_slot 0 1) ''_duration_sec'' = Inr 1"
    by code_simp
  have p1: "seg_file_name (seg_index 1 (example_slot 0 1)) = Inr ''seg_0001.mp3''"
    by code_simp
  have c1: "segments_dir example_env ''seg_0001.mp3'' = Audio [11, 12, 13]"
    by code_simp
  have a2: "slot_aligned example_env 2 (example_slot 1 5) =
      Inr ([Seg_info 2 (PInt 2)], Some (4, 16, [21, 22, 23, 24, 25, 26, 27, 21, 22, 23, 24, 25, 26, 27, 0, 0]))"
    by code_simp
  have d2: "get_float_field (example_slot 1 5) ''_duration_sec'' = Inr 4"
    by code_simp
  have p2: "seg_file_name (seg_index 2 (example_slot 1 5)) = Inr ''seg_0002.mp3''"
    by code_simp
  have c2: "segments_dir example_env ''seg_0002.mp3'' = Audio [21, 22, 23, 24, 25, 26, 27, 21, 22, 23, 24, 25, 26, 27]"
    by code_simp
  have a3: "slot_aligned example_env 3 (example_slot 5 6) =
      Inr ([Seg_info 3 (PInt 3), Time_stretch (13 / 10)], Some (20, 4, [41, 42, 43, 44]))"
    by code_simp
  have d3: "get_float_field (example_slot 5 6) ''_duration_sec'' = Inr 1"
    by code_simp
  have p3: "seg_file_name (seg_index 3 (example_slot 5 6)) = Inr ''seg_0003.mp3''"
    by code_simp
  have c3: "segments_dir example_env ''seg_0003.mp3'' =
      Audio [41, 42, 43, 44, 45, 41, 42, 43, 44, 45, 41, 42, 43, 44, 45, 41, 42, 43, 44, 45]"
    by code_simp
  show ?thesis
    using stretch_iff_both_thresholds [OF a1 d1 p1 c1 refl refl refl]
      stretch_iff_both_thresholds [OF a2 d2 p2 c2 refl refl refl]
      stretch_iff_both_thresholds [OF a3 d3 p3 c3 refl refl refl]
    by (auto simp: example_env_def)
qed


lemma np_clip_bounds: "lo \<le> hi \<Longrightarrow> lo \<le> np_clip x lo hi \<and> np_clip x lo hi \<le> hi"
  by (auto simp: np_clip_def)

lemma np_clip_cases:
  "lo \<le> hi \<Longrightarrow>
     (hi < x \<longrightarrow> np_clip x lo hi = hi) \<and> (x < lo \<longrightarrow> np_clip x lo hi = lo)
     \<and> (lo \<le> x \<and> x \<le> hi \<longrightarrow> np_clip x lo hi = x)"
  by (auto simp: np_clip_def)

lemma slot_aligned_stretch_path:
  assumes "slot_aligned env i seg = Inr (evs, Some (start_sample, slot_len, aligned))"
    and "get_float_field seg ''_duration_sec'' = Inr slot_duration"
    and "seg_file_name (seg_index i seg) = Inr seg_path"
    and "segments_dir env seg_path = Audio audio"
  shows "align_clip env slot_duration slot_len audio (real (length audio) / of_int (sr env))
           = Inr (tl evs, aligned) \<and> evs = Seg_info i (seg_index i seg) # tl evs \<and> 0 < slot_len"
  using slot_aligned_SomeD[OF assms(1)] assms(2,3,4) by auto

text \<open>
  Claim C4. On the stretch path the rate printed and passed to the stretch primitive is
  \<open>cur_dur / slot_duration\<close> clipped into \<open>[0.7, 1.3]\<close>: it lies within the bounds, equals
  the upper bound when the raw ratio is above it, the lower bound when the raw ratio is
  below it, and the raw ratio otherwise.
\<close>

theorem stretch_rate_clamped:
  assumes "slot_aligned env i seg = Inr (evs, Some (start_sample, slot_len, aligned))"
    and "Time_stretch rate \<in> set evs"
    and "get_float_field seg ''_duration_sec'' = Inr slot_duration"
    and "seg_file_name (seg_index i seg) = Inr seg_path"
    and "segments_dir env seg_path = Audio audio"
    and "cur_dur = real (length audio) / of_int (sr env)"
  shows "rate = np_clip (cur_dur / slot_duration) (7 / 10) (13 / 10)
       \<and> 7 / 10 \<le> rate \<and> rate \<le> 13 / 10
       \<and> (13 / 10 < cur_dur / slot_duration \<longrightarrow> rate = 13 / 10)
       \<and> (cur_dur / slot_duration < 7 / 10 \<longrightarrow> rate = 7 / 10)
       \<and> (7 / 10 \<le> cur_dur / slot_duration \<and> cur_dur / slot_duration \<le> 13 / 10 \<longrightarrow> rate = cur_dur / slot_duration)
       \<and> aligned = crop_pad slot_len (time_stretch env audio rate)"
proof -
  from slot_aligned_stretch_path[OF assms(1,3,4,5)] assms(6)
  have al: "align_clip env slot_duration slot_len audio cur_dur = Inr (tl evs, aligned)"
    and evs: "evs = Seg_info i (seg_index i seg) # tl evs"
    by simp_all
  from evs assms(2) have mem: "Time_stretch rate \<in> set (tl evs)"
    by (metis event.distinct(5) set_ConsD)
  have ns: "need_stretch env slot_duration cur_dur"
  proof (rule ccontr)
    assume "\<not> need_stretch env slot_duration cur_dur"
    from align_clip_no_stretch[OF this, of slot_len audio] al mem show False by simp
  qed
  from align_clip_stretch[OF ns al] mem
  have r: "rate = np_clip (cur_dur / slot_duration) (7 / 10) (13 / 10)"
    and a: "aligned = crop_pad slot_len (time_stretch env audio rate)"
    by auto
  have le: "(7 / 10 :: real) \<le> 13 / 10" by simp
  from np_clip_bounds[OF le, of "cur_dur / slot_duration"] np_clip_cases[OF le, of "cur_dur / slot_duration"] r a
  show ?thesis by simp
qed

theorem stretch_rate_clamped_witness:
  "(13 / 10 :: real) = np_clip (5 / 1) (7 / 10) (13 / 10)
   \<and> [41, 42, 43, 44] = crop_pad 4 (example_stretch
        [41, 42, 43, 44, 45, 41, 42, 43, 44, 45, 41, 42, 43, 44, 45, 41, 42, 43, 44, 45 :: int] (13 / 10))
   \<and> (7 / 10 :: real) = np_clip ((3 / 4) / 3) (7 / 10) (13 / 10)"
proof -
  have a3: "slot_aligned example_env 3 (example_slot 5 6) =
      Inr ([Seg_info 3 (PInt 3), Time_stretch (13 / 10)], Some (20, 4, [41, 42, 43, 44]))"
    by code_simp
  have m3: "Time_stretch (13 / 10) \<in> set [Seg_info 3 (PInt 3), Time_stretch (13 / 10)]"
    by simp
  have d3: "get_float_field (example_slot 5 6) ''_duration_sec'' = Inr 1"
    by code_simp
  have p3: "seg_file_name (seg_index 3 (example_slot 5 6)) = Inr ''seg_0003.mp3''"
    by code_simp
  have c3: "segments_dir example_env ''seg_0003.mp3'' =
      Audio [41, 42, 43, 44, 45, 41, 42, 43, 44, 45, 41, 42, 43, 44, 45, 41, 42, 43, 44, 45]"
    by code_simp
  have a1: "slot_aligned example_env 1 (example_slot 0 3) =
      Inr ([Seg_info 1 (PInt 1), Time_stretch (7 / 10)], Some (0, 12, [11, 11, 12, 13, 0, 0, 0, 0, 0, 0, 0, 0]))"
    by code_simp
  have m1: "Time_stretch (7 / 10) \<in> set [Seg_info 1 (PInt 1), Time_stretch (7 / 10)]"
    by simp
  have d1: "get_float_field (example_slot 0 3) ''_duration_sec'' = Inr 3"
    by code_simp
  have p1: "seg_file_name (seg_index 1 (example_slot 0 3)) = Inr ''seg_0001.mp3''"
    by code_simp
  have c1: "segments_dir example_env ''seg_0001.mp3'' = Audio [11, 12, 13]"
    by code_simp
  show ?thesis
    using stretch_rate_clamped [OF a3 m3 d3 p3 c3 refl] stretch_rate_clamped [OF a1 m1 d1 p1 c1 refl]
    by (simp add: example_env_def)
qed

lemma crop_pad_eq:
  "0 < slot_len \<Longrightarrow>
     crop_pad slot_len buf =
       (if slot_len \<le> int (length buf) then take (nat slot_len) buf
        else buf @ replicate (nat slot_len - length buf) 0)"
  by (auto simp: crop_pad_def py_take_def slice_index_def np_pad_tail_def min_def nat_diff_distrib)

lemma length_crop_pad: "0 < slot_len \<Longrightarrow> length (crop_pad slot_len buf) = nat slot_len"
  by (auto simp: crop_pad_eq)

text \<open>
  Claim C5. On the no-stretch path the aligned buffer is the clip's first \<open>slot_len\<close>
  samples when the clip is at least as long as the slot, and otherwise the clip followed
  by \<open>slot_len - clip_len\<close> zeros; its first \<open>min(clip_len, slot_len)\<close> samples are the
  clip's, unaltered, and its length is \<open>slot_len\<close>.
\<close>

theorem no_stretch_crop_or_pad:
  assumes "slot_aligned env i seg = Inr (evs, Some (start_sample, slot_len, aligned))"
    and "\<forall>rate. Time_stretch rate \<notin> set evs"
    and "seg_file_name (seg_index i seg) = Inr seg_path"
    and "segments_dir env seg_path = Audio audio"
  shows "(slot_len \<le> int (length audio) \<longrightarrow> aligned = take (nat slot_len) audio)
       \<and> (int (length audio) < slot_len \<longrightarrow> aligned = audio @ replicate (nat slot_len - length audio) 0)
       \<and> take (min (length audio) (nat slot_len)) aligned = take (min (length audio) (nat slot_len)) audio
       \<and> length aligned = nat slot_len"
proof -
  from slot_aligned_SomeD[OF assms(1)] assms(3,4)
  obtain slot_duration aevs where
    al: "align_clip env slot_duration slot_len audio (real (length audio) / of_int (sr env)) = Inr (aevs, aligned)"
    and evs: "evs = Seg_info i (seg_index i seg) # aevs" and pos: "0 < slot_len"
    by auto
  have "\<not> need_stretch env slot_duration (real (length audio) / of_int (sr env))"
  proof
    assume "need_stretch env slot_duration (real (length audio) / of_int (sr env))"
    from align_clip_stretch[OF this al] evs assms(2) show False by simp
  qed
  from align_clip_no_stretch[OF this, of slot_len audio] al
  have "aligned = crop_pad slot_len audio" by simp
  with pos show ?thesis by (auto simp: crop_pad_eq min_def)
qed

theorem no_stretch_crop_or_pad_witness:
  "[11, 12, 13, 0] = [11, 12, 13] @ replicate (nat 4 - length [11, 12, 13 :: int]) (0 :: int)
   \<and> [71, 72] = take (nat 2) [71, 72, 73 :: int]"
proof -
  have a1: "slot_aligned example_env 1 (example_slot 0 1) = Inr ([Seg_info 1 (PInt 1)], Some (0, 4, [11, 12, 13, 0]))"
    by code_simp
  have p1: "seg_file_name (seg_index 1 (example_slot 0 1)) = Inr ''seg_0001.mp3''"
    by code_simp
  have c1: "segments_dir example_env ''seg_0001.mp3'' = Audio [11, 12, 13]"
    by code_simp
  have n1: "\<forall>rate. Time_stretch rate \<notin> set [Seg_info 1 (PInt 1)]"
    by simp
  have a7: "slot_aligned example_env 7 (example_slot 2 (5 / 2)) = Inr ([Seg_info 7 (PInt 7)], Some (8, 2, [71, 72]))"
    by code_simp
  have p7: "seg_file_name (seg_index 7 (example_slot 2 (5 / 2))) = Inr ''seg_0007.mp3''"
    by code_simp
  have c7: "segments_dir example_env ''seg_0007.mp3'' = Audio [71, 72, 73]"
    by code_simp
  have n7: "\<forall>rate. Time_stretch rate \<notin> set [Seg_info 7 (PInt 7)]"
    by simp
  show ?thesis
    using no_stretch_crop_or_pad [OF a1 n1 p1 c1] no_stretch_crop_or_pad [OF a7 n7 p7 c7]
    by simp
qed

subsection \<open>Loading and sorting\<close>

lemma get_slot_times_add_time_fields [simp]:
  "get_slot_times pf (add_time_fields seg s e) = get_slot_times pf seg"
  by (simp add: get_slot_times_def add_time_fields_def split: option.splits)

lemma add_time_fields_idem [simp]:
  "add_time_fields (add_time_fields seg s e) s e = add_time_fields seg s e"
  by (auto simp: add_time_fields_def fun_eq_iff)























subsection \<open>Writes into the track\<close>

lemma slice_index_le: "slice_index n i \<le> n"
  by (auto simp: slice_index_def)

lemma splice_nth:
  assumes "lo \<le> length xs" and "lo + length w \<le> length xs"
  shows "(take lo xs @ w @ drop (lo + length w) xs) ! p =
           (if p < lo then xs ! p else if p < lo + length w then w ! (p - lo) else xs ! p)"
proof -
  define t where "t = take lo xs"
  define d where "d = drop (lo + length w) xs"
  have l: "length t = lo" using assms(1) by (simp add: t_def)
  have tn: "\<And>q. q < lo \<Longrightarrow> t ! q = xs ! q" by (simp add: t_def)
  have dn: "\<And>q. d ! q = xs ! (lo + length w + q)"
    unfolding d_def by (rule nth_drop[OF assms(2)])
  have "(t @ w @ d) ! p = (if p < lo then xs ! p else if p < lo + length w then w ! (p - lo) else xs ! p)"
  proof (cases "p < lo")
    case True
    then show ?thesis by (simp add: nth_append l tn)
  next
    case False
    note nlo = this
    show ?thesis
    proof (cases "p < lo + length w")
      case True
      with nlo have "p - lo < length w" by linarith
      with nlo True show ?thesis by (simp add: nth_append l)
    next
      case False
      then have a: "\<not> p - lo < length w" by linarith
      have b: "lo + length w + (p - lo - length w) = p" using False by linarith
      from nlo False a show ?thesis
        by (simp add: nth_append l dn b)
    qed
  qed
  then show ?thesis by (simp add: t_def d_def)
qed

lemma slice_index_nonneg: "0 \<le> i \<Longrightarrow> i \<le> int n \<Longrightarrow> slice_index n i = nat i"
  by (simp add: slice_index_def)

lemma np_set_slice_length:
  assumes "np_set_slice track a b v = Inr track'"
  shows "length track' = length track"
proof -
  let ?lo = "slice_index (length track) a" and ?hi = "slice_index (length track) b"
  have "?lo + (?hi - ?lo) \<le> length track"
    using slice_index_le[of "length track" a] slice_index_le[of "length track" b] by linarith
  with assms show ?thesis
    by (auto simp: np_set_slice_def Let_def split: if_splits)
qed

lemma np_set_slice_outside:
  assumes "np_set_slice track a b v = Inr track'"
    and "\<not> (slice_index (length track) a \<le> p \<and> p < slice_index (length track) b)"
  shows "track' ! p = track ! p"
proof -
  let ?lo = "slice_index (length track) a" and ?hi = "slice_index (length track) b"
  let ?n = "?hi - ?lo"
  have lo: "?lo \<le> length track" by (rule slice_index_le)
  have bound: "?lo + ?n \<le> length track"
    using slice_index_le[of "length track" a] slice_index_le[of "length track" b] by linarith
  from assms(1) obtain w where w: "track' = take ?lo track @ w @ drop (?lo + length w) track" and lw: "length w = ?n"
    by (auto simp: np_set_slice_def Let_def split: if_splits)
  from bound lw have b2: "?lo + length w \<le> length track" by simp
  from assms(2) lw have "p < ?lo \<or> \<not> p < ?lo + length w" by linarith
  then show ?thesis unfolding w splice_nth[OF lo b2] by auto
qed

lemma np_set_slice_inside:
  assumes "np_set_slice track a b v = Inr track'"
    and "slice_index (length track) a \<le> p" and "p < slice_index (length track) b"
    and "length v = slice_index (length track) b - slice_index (length track) a"
  shows "track' ! p = v ! (p - slice_index (length track) a)"
proof -
  let ?lo = "slice_index (length track) a" and ?hi = "slice_index (length track) b"
  have lo: "?lo \<le> length track" by (rule slice_index_le)
  have b2: "?lo + length v \<le> length track"
    using slice_index_le[of "length track" b] assms(2,3,4) by linarith
  from assms(1,4) have w: "track' = take ?lo track @ v @ drop (?lo + length v) track"
    by (auto simp: np_set_slice_def Let_def split: if_splits)
  from assms(2,3,4) have "\<not> p < ?lo" "p < ?lo + length v" by linarith+
  then show ?thesis unfolding w splice_nth[OF lo b2] by simp
qed

lemma write_slot_in_range:
  assumes "0 \<le> s" and "s \<le> int (length track)" and "0 < n" and "length a = nat n"
  shows "\<exists>track'. write_slot track (int (length track)) (s, n, a) = Inr track'
           \<and> (\<forall>p. nat s \<le> p \<and> int p < min (s + n) (int (length track)) \<longrightarrow> track' ! p = a ! (p - nat s))"
proof -
  define e where "e = min (s + n) (int (length track))"
  have e: "s \<le> e" "e \<le> int (length track)" "e - s \<le> n" "0 \<le> e - s"
    using assms by (auto simp: e_def)
  have lo: "slice_index (length track) s = nat s"
    using assms by (simp add: slice_index_nonneg)
  have hi: "slice_index (length track) e = nat e"
    using e assms(1) by (intro slice_index_nonneg) auto
  have "slice_index (length a) (e - s) = nat (e - s)"
    using e assms(4) by (simp add: slice_index_def)
  then have tk: "py_take (e - s) a = take (nat (e - s)) a"
    by (simp add: py_take_def)
  have "length (take (nat (e - s)) a) = nat (e - s)"
    using e assms(4) by simp
  moreover have "nat (e - s) = nat e - nat s"
    using e assms(1) by linarith
  ultimately have len: "length (py_take (e - s) a) = nat e - nat s"
    by (simp add: tk)
  then obtain track' where w: "np_set_slice track s e (py_take (e - s) a) = Inr track'"
    by (simp add: np_set_slice_def Let_def lo hi)
  have "\<forall>p. nat s \<le> p \<and> int p < e \<longrightarrow> track' ! p = a ! (p - nat s)"
  proof (intro allI impI)
    fix p assume p: "nat s \<le> p \<and> int p < e"
    then have p1: "slice_index (length track) s \<le> p" and p2: "p < slice_index (length track) e"
      using lo hi by simp_all linarith
    from len lo hi have l2: "length (py_take (e - s) a) = slice_index (length track) e - slice_index (length track) s"
      by simp
    from np_set_slice_inside[OF w p1 p2 l2] lo
    have "track' ! p = py_take (e - s) a ! (p - nat s)" by simp
    moreover have "p - nat s < nat (e - s)" using p assms(1) by linarith
    ultimately show "track' ! p = a ! (p - nat s)" by (simp add: tk)
  qed
  with w show ?thesis by (simp add: write_slot_def Let_def e_def)
qed

lemma write_slot_length:
  "write_slot track total_len w = Inr track' \<Longrightarrow> length track' = length track"
  by (auto simp: write_slot_def Let_def np_set_slice_length split: prod.splits)

lemma process_slot_length:
  "process_slot env x (track, out) = Inr (track', out') \<Longrightarrow> length track' = length track"
  by (auto simp: process_slot_def write_slot_length split: prod.splits sum.splits option.splits)

lemma assemble_loop_length:
  "assemble_loop env xs (track, out) = Inr (track', out') \<Longrightarrow> length track' = length track"
proof (induction xs arbitrary: track out)
  case Nil
  then show ?case by simp
next
  case (Cons x xs)
  then obtain t1 o1 where s: "process_slot env x (track, out) = Inr (t1, o1)"
    and r: "assemble_loop env xs (t1, o1) = Inr (track', out')"
    by (auto split: sum.splits)
  from Cons.IH[OF r] process_slot_length[OF s] show ?case by simp
qed

lemma process_slot_unwritten:
  assumes "process_slot env x (track, out) = Inr (track', out')"
    and "length track = nat (total_samples env)"
    and "\<not> writes_at env x p"
  shows "track' ! p = track ! p"
proof (cases x)
  case (Pair i seg)
  show ?thesis
  proof (cases "slot_aligned env i seg")
    case (Inl e)
    with assms(1) Pair show ?thesis by (simp add: process_slot_def)
  next
    case (Inr res)
    obtain evs w where res: "res = (evs, w)" by (cases res)
    show ?thesis
    proof (cases w)
      case None
      with assms(1) Pair Inr res show ?thesis by (simp add: process_slot_def)
    next
      case (Some sna)
      obtain s n a where sna: "sna = (s, n, a)" by (cases sna)
      from assms(1) Pair Inr res Some sna
      have w: "np_set_slice track s (min (s + n) (total_samples env)) (py_take (min (s + n) (total_samples env) - s) a) = Inr track'"
        by (auto simp: process_slot_def write_slot_def Let_def split: sum.splits)
      from assms(3) Pair Inr res Some sna assms(2)
      have "\<not> (slice_index (length track) s \<le> p \<and> p < slice_index (length track) (min (s + n) (total_samples env)))"
        by (simp add: writes_at_def)
      from np_set_slice_outside[OF w this] show ?thesis .
    qed
  qed
qed

lemma assemble_loop_unwritten:
  assumes "assemble_loop env xs (track, out) = Inr (track', out')"
    and "length track = nat (total_samples env)"
    and "\<forall>x \<in> set xs. \<not> writes_at env x p"
  shows "track' ! p = track ! p"
  using assms
proof (induction xs arbitrary: track out)
  case Nil
  then show ?case by simp
next
  case (Cons x xs)
  from Cons.prems(1) obtain t1 o1 where s: "process_slot env x (track, out) = Inr (t1, o1)"
    and r: "assemble_loop env xs (t1, o1) = Inr (track', out')"
    by (auto split: sum.splits)
  have l1: "length t1 = nat (total_samples env)"
    using process_slot_length[OF s] Cons.prems(2) by simp
  from Cons.prems(3) have nx: "\<not> writes_at env x p" and nxs: "\<forall>y \<in> set xs. \<not> writes_at env y p"
    by simp_all
  from Cons.IH[OF r l1 nxs] process_slot_unwritten[OF s Cons.prems(2) nx] show ?case by simp
qed

lemma assemble_loop_append:
  "assemble_loop env (xs @ ys) st =
     (case assemble_loop env xs st of Inl e \<Rightarrow> Inl e | Inr st' \<Rightarrow> assemble_loop env ys st')"
  by (induction xs arbitrary: st) (auto split: sum.splits)

lemma finalize_same: "int (length track) = total_len \<Longrightarrow> finalize total_len track = track"
  by (simp add: finalize_def)

lemma assemble_result:
  assumes "assemble env processed = Inr (track, printed)"
  shows "0 \<le> total_samples env"
    and "assemble_loop env (enumerate 1 processed) (replicate (nat (total_samples env)) 0, []) = Inr (track, printed)"
    and "length track = nat (total_samples env)"
proof -
  from assms show nn: "0 \<le> total_samples env"
    by (auto simp: assemble_def np_zeros_def split: if_splits)
  with assms obtain t1 where
    l: "assemble_loop env (enumerate 1 processed) (replicate (nat (total_samples env)) 0, []) = Inr (t1, printed)"
    and f: "track = finalize (total_samples env) t1"
    by (auto simp: assemble_def np_zeros_def split: sum.splits)
  from assemble_loop_length[OF l] have len: "length t1 = nat (total_samples env)" by simp
  with nn f have "track = t1" by (simp add: finalize_same)
  with l len show "assemble_loop env (enumerate 1 processed) (replicate (nat (total_samples env)) 0, []) = Inr (track, printed)"
    and "length track = nat (total_samples env)" by simp_all
qed



lemma slot_aligned_length:
  assumes "slot_aligned env i seg = Inr (evs, Some (s, n, a))"
  shows "0 < n \<and> length a = nat n"
proof -
  from slot_aligned_SomeD[OF assms] obtain d audio aevs where
    pos: "0 < n" and
    al: "align_clip env d n audio (real (length audio) / of_int (sr env)) = Inr (aevs, a)"
    by auto
  from al pos show ?thesis
    by (auto simp: align_clip_def Let_def length_crop_pad split: if_splits)
qed

text \<open>
  Claim C6, as amended. For two slots that both reach the write of lines 205--208 and
  whose sample windows intersect, the later one starting at a non-negative sample:
  after assembly, every sample of the overlap that lies inside the track and that no
  slot processed after the later one writes equals the corresponding sample of the later
  slot's aligned buffer. The value is copied: nothing of the earlier slot is mixed in.
\<close>

theorem later_slot_overwrites:
  assumes "assemble env processed = Inr (track, printed)"
    and "i < j" and "j < length processed"
    and "slot_aligned env (Suc i) (processed ! i) = Inr (evs_i, Some (s_i, n_i, a_i))"
    and "slot_aligned env (Suc j) (processed ! j) = Inr (evs_j, Some (s_j, n_j, a_j))"
    and "0 \<le> s_j"
    and "s_i \<le> p" and "p < s_i + n_i" and "s_j \<le> p" and "p < s_j + n_j" and "p < total_samples env"
    and "\<forall>k. j < k \<and> k < length processed \<longrightarrow> \<not> writes_at env (Suc k, processed ! k) (nat p)"
  shows "track ! nat p = a_j ! nat (p - s_j)"
proof -
  let ?T = "total_samples env"
  let ?xs = "enumerate 1 processed"
  note res = assemble_result[OF assms(1)]
  have jl: "j < length ?xs" using assms(3) by simp
  have xj: "?xs ! j = (Suc j, processed ! j)" using assms(3) by (simp add: nth_enumerate_eq)
  have split: "?xs = take j ?xs @ [(Suc j, processed ! j)] @ drop (Suc j) ?xs"
    using id_take_nth_drop[OF jl] xj by simp
  from res(2) split
  have "assemble_loop env (take j ?xs @ [(Suc j, processed ! j)] @ drop (Suc j) ?xs) (replicate (nat ?T) 0, []) = Inr (track, printed)"
    by simp
  then obtain t1 o1 t2 o2 where
    pre: "assemble_loop env (take j ?xs) (replicate (nat ?T) 0, []) = Inr (t1, o1)"
    and step: "process_slot env (Suc j, processed ! j) (t1, o1) = Inr (t2, o2)"
    and post: "assemble_loop env (drop (Suc j) ?xs) (t2, o2) = Inr (track, printed)"
    by (auto simp: assemble_loop_append split: sum.splits)
  have l1: "length t1 = nat ?T" using assemble_loop_length[OF pre] by simp
  have l2: "length t2 = nat ?T" using process_slot_length[OF step] l1 by simp
  from slot_aligned_length[OF assms(5)] have nj: "0 < n_j" and la: "length a_j = nat n_j" by simp_all
  have T: "int (length t1) = ?T" using l1 res(1) by simp
  have sT: "s_j \<le> int (length t1)" using assms(9,11) T by linarith
  from write_slot_in_range[OF assms(6) sT nj la] obtain t2' where
    w: "write_slot t1 (int (length t1)) (s_j, n_j, a_j) = Inr t2'"
    and val: "\<forall>q. nat s_j \<le> q \<and> int q < min (s_j + n_j) (int (length t1)) \<longrightarrow> t2' ! q = a_j ! (q - nat s_j)"
    by blast
  from step assms(5) w T have "t2 = t2'"
    by (simp add: process_slot_def)
  moreover have "nat s_j \<le> nat p \<and> int (nat p) < min (s_j + n_j) (int (length t1))"
    using assms(6,9,10,11) T by simp
  ultimately have at2: "t2 ! nat p = a_j ! (nat p - nat s_j)" using val by blast
  have "\<forall>x \<in> set (drop (Suc j) ?xs). \<not> writes_at env x (nat p)"
  proof
    fix x assume "x \<in> set (drop (Suc j) ?xs)"
    then obtain m where m: "m < length (drop (Suc j) ?xs)" and x: "x = drop (Suc j) ?xs ! m"
      by (auto simp: in_set_conv_nth)
    from m have k: "Suc j + m < length processed" by simp
    with x have "x = (Suc (Suc j + m), processed ! (Suc j + m))"
      by (simp add: nth_enumerate_eq)
    with assms(12) k show "\<not> writes_at env x (nat p)" by simp
  qed
  from assemble_loop_unwritten[OF post l2 this] at2
  have "track ! nat p = a_j ! (nat p - nat s_j)" by simp
  moreover have "nat p - nat s_j = nat (p - s_j)" using assms(6,9) by linarith
  ultimately show ?thesis by simp
qed

theorem later_slot_overwrites_witness:
  "assemble example_env example_overlap =
     Inr ([11, 12, 13, 0, 21, 22, 23, 24, 25, 26, 27, 21, 22, 23, 24, 25, 41, 42, 43, 44] @ replicate 20 0,
          [Seg_info 1 (PInt 1), Seg_info 2 (PInt 2), Seg_info 3 (PInt 3), Time_stretch (13 / 10)])
   \<and> ([11, 12, 13, 0, 21, 22, 23, 24, 25, 26, 27, 21, 22, 23, 24, 25, 41, 42, 43, 44] @ replicate 20 0) ! nat 17
       = [41, 42, 43, 44 :: int] ! nat (17 - 16)"
proof -
  have a: "assemble example_env example_overlap =
     Inr ([11, 12, 13, 0, 21, 22, 23, 24, 25, 26, 27, 21, 22, 23, 24, 25, 41, 42, 43, 44] @ replicate 20 0,
          [Seg_info 1 (PInt 1), Seg_info 2 (PInt 2), Seg_info 3 (PInt 3), Time_stretch (13 / 10)])"
    by code_simp
  have si: "slot_aligned example_env (Suc 1) (example_overlap ! 1) =
      Inr ([Seg_info 2 (PInt 2)], Some (4, 16, [21, 22, 23, 24, 25, 26, 27, 21, 22, 23, 24, 25, 26, 27, 0, 0]))"
    by code_simp
  have sj: "slot_aligned example_env (Suc 2) (example_overlap ! 2) =
      Inr ([Seg_info 3 (PInt 3), Time_stretch (13 / 10)], Some (16, 4, [41, 42, 43, 44]))"
    by code_simp
  have l: "2 < length example_overlap" by (simp add: example_overlap_def)
  have "length example_overlap = 3" by (simp add: example_overlap_def)
  then have last: "\<forall>k. 2 < k \<and> k < length example_overlap \<longrightarrow> \<not> writes_at example_env (Suc k, example_overlap ! k) (nat 17)"
    by auto
  have t: "(17 :: int) < total_samples example_env" by (simp add: example_env_def)
  from later_slot_overwrites [OF a _ l si sj _ _ _ _ _ t last] a show ?thesis
    by simp
qed

text \<open>
  Claim C6 as stated fails where a third slot covers the overlap of a pair: of three
  slots on the window \<open>[0, 4)\<close>, the first and second overlap, the second slot's aligned
  buffer starts with 71, and after assembly the track starts with the third slot's 11.
\<close>

theorem later_slot_overwrites_counterexample:
  "slot_aligned example_env 1 (example_triple ! 0) = Inr ([Seg_info 1 (PInt 1)], Some (0, 4, [11, 12, 13, 0]))
   \<and> slot_aligned example_env 2 (example_triple ! 1) = Inr ([Seg_info 2 (PInt 7)], Some (0, 4, [71, 72, 73, 0]))
   \<and> assemble example_env example_triple =
       Inr ([11, 12, 13, 0] @ replicate 36 0, [Seg_info 1 (PInt 1), Seg_info 2 (PInt 7), Seg_info 3 (PInt 1)])
   \<and> ([11, 12, 13, 0] @ replicate 36 0) ! 0 \<noteq> [71, 72, 73, 0 :: int] ! 0"
  by code_simp

text \<open>
  Claim C1. Every run of the assembly that completes returns a track of exactly
  \<open>total_samples\<close> samples: the track is allocated as \<open>total_samples\<close> zeros, the loop of
  slot writes keeps its length, and the finalization of lines 210--215 is applied to the
  result.
\<close>

theorem track_length_total:
  assumes "assemble env processed = Inr (track, printed)"
  shows "int (length track) = total_samples env
       \<and> (\<exists>track'. assemble_loop env (enumerate 1 processed) (replicate (nat (total_samples env)) 0, []) = Inr (track', printed)
             \<and> length track' = nat (total_samples env)
             \<and> track = finalize (total_samples env) track')"
proof -
  note r = assemble_result[OF assms]
  from r(1,3) have "int (length track) = total_samples env" by simp
  moreover from this have "track = finalize (total_samples env) track" by (simp add: finalize_same)
  ultimately show ?thesis using r(2,3) by blast
qed

lemma Inr_projr: "\<not> isl x \<Longrightarrow> x = Inr (fst (projr x), snd (projr x))"
  by (cases x) auto

theorem track_length_total_witness:
  "int (length (fst (projr (assemble example_env [])))) = total_samples example_env
   \<and> int (length (fst (projr (assemble example_env [example_slot_idx 3 0 10])))) = total_samples example_env
   \<and> int (length (fst (projr (assemble example_env
        [example_slot_idx 1 0 1, example_slot_idx 7 9 10, example_slot_idx 6 2 3, example_slot_idx 4 3 4]))))
       = total_samples example_env
   \<and> int (length (fst (projr (assemble example_env example_overlap)))) = total_samples example_env"
proof -
  have "\<not> isl (assemble example_env [])"
    "\<not> isl (assemble example_env [example_slot_idx 3 0 10])"
    "\<not> isl (assemble example_env
        [example_slot_idx 1 0 1, example_slot_idx 7 9 10, example_slot_idx 6 2 3, example_slot_idx 4 3 4])"
    "\<not> isl (assemble example_env example_overlap)"
    by code_simp+
  note a = this[THEN Inr_projr]
  from track_length_total[OF a(1)] track_length_total[OF a(2)] track_length_total[OF a(3)] track_length_total[OF a(4)]
  show ?thesis by blast
qed

subsection \<open>Runs that complete\<close>














end
